theory Spec2Isabelle
  imports Main
begin

section \<open>Aurora: the Entity class over a store of Components\<close>

text \<open>
  The development embeds \<^verbatim>\<open>src/core/Entity.js\<close> and \<^verbatim>\<open>src/utils/hasItem.js\<close>.
  An Entity is a record that is passed in and returned updated. Components are
  objects that Entities hold by reference, so they live in a store: a list of
  component objects in which a reference is an index and \<^verbatim>\<open>new\<close> appends.
  Console output (\<^verbatim>\<open>console.warn\<close>, \<^verbatim>\<open>console.info\<close>) is not part of the state.
\<close>

subsection \<open>Values\<close>

text \<open>
  The primitive values a configuration record may carry in its \<^verbatim>\<open>uuid\<close>,
  \<^verbatim>\<open>type\<close> and \<^verbatim>\<open>name\<close> fields. \<open>PUndefined\<close> is what reading an absent field
  gives. Numbers are only ever tested for being zero.
\<close>

datatype prim = PUndefined | PNull | PBool bool | PNum int | PNaN | PStr string

text \<open>ECMAScript ToBoolean on primitives.\<close>

fun truthy :: "prim \<Rightarrow> bool" where
  "truthy PUndefined = False"
| "truthy PNull = False"
| "truthy (PBool b) = b"
| "truthy (PNum n) = (n \<noteq> 0)"
| "truthy PNaN = False"
| "truthy (PStr s) = (s \<noteq> [])"

text \<open>The operator \<^verbatim>\<open>a || b\<close>.\<close>

definition js_or :: "prim \<Rightarrow> prim \<Rightarrow> prim" where
  "js_or a b = (if truthy a then a else b)"

datatype error = TypeError

subsection \<open>Components and the store\<close>

type_synonym ref = nat

type_synonym 'v payload = "string \<rightharpoonup> 'v"

text \<open>
  Modelled from the spec: the class Component (\<^verbatim>\<open>src/core/Component.js\<close> is not
  among the sources). A Component has a type, a string that is stable for its life
  and is the key that \<^verbatim>\<open>hasItem\<close> reads as the property \<^verbatim>\<open>_type\<close>, and a data
  payload, a mapping of field names to values.
\<close>

record 'v component =
  c_type :: string
  c_data :: "'v payload"

type_synonym 'v store = "'v component list"

text \<open>Modelled from the spec: \<^verbatim>\<open>getType()\<close>, the stable identity string.\<close>

definition Component_getType :: "'v component \<Rightarrow> string" where
  "Component_getType c = c_type c"

text \<open>Modelled from the spec: \<^verbatim>\<open>getData()\<close>, the current payload.\<close>

definition Component_getData :: "'v component \<Rightarrow> 'v payload" where
  "Component_getData c = c_data c"

text \<open>
  Modelled from the spec: \<^verbatim>\<open>clone()\<close>, an independent copy with identical type
  and a deep copy of the data. The copy is a new object of the store.
\<close>

definition Component_clone :: "ref \<Rightarrow> 'v store \<Rightarrow> ref \<times> 'v store" where
  "Component_clone r h =
     (length h, h @ [\<lparr>c_type = c_type (h ! r), c_data = c_data (h ! r)\<rparr>])"

text \<open>
  Modelled from the spec: \<^verbatim>\<open>apply(partialData)\<close>, which merges partial fields
  into the existing payload, in place.
\<close>

definition Component_apply :: "ref \<Rightarrow> 'v payload \<Rightarrow> 'v store \<Rightarrow> 'v store" where
  "Component_apply r partialData h =
     h[r := (h ! r)\<lparr>c_data := c_data (h ! r) ++ partialData\<rparr>]"

subsection \<open>Array lookup utilities\<close>

text \<open>
  \<^verbatim>\<open>hasItem(target, array, prop)\<close>: \<^verbatim>\<open>array.find\<close> gives the first item whose
  property equals the target, or undefined; the items are objects, hence truthy.
  The property read \<^verbatim>\<open>item[prop]\<close> is the function \<open>prop\<close>.
\<close>

definition hasItem :: "'b \<Rightarrow> 'a list \<Rightarrow> ('a \<Rightarrow> 'b) \<Rightarrow> bool" where
  "hasItem target array prop =
     (case List.find (\<lambda>item. prop item = target) array of
        None \<Rightarrow> False
      | Some match \<Rightarrow> True)"

text \<open>
  Modelled from the spec: \<^verbatim>\<open>getItem(target, array, prop)\<close> (\<^verbatim>\<open>src/utils/getItem.js\<close>
  is not among the sources): the requested item, or a not-found signal (\<open>None\<close>).
\<close>

definition getItem :: "'b \<Rightarrow> 'a list \<Rightarrow> ('a \<Rightarrow> 'b) \<Rightarrow> 'a option" where
  "getItem target array prop = List.find (\<lambda>item. prop item = target) array"

subsection \<open>Entities\<close>

text \<open>
  The fields \<^verbatim>\<open>_uuid\<close>, \<^verbatim>\<open>_type\<close>, \<^verbatim>\<open>_name\<close>, \<^verbatim>\<open>_components\<close>, \<^verbatim>\<open>_tasks\<close>,
  \<^verbatim>\<open>tasksDirty\<close> and \<^verbatim>\<open>_dirty\<close>. The property \<^verbatim>\<open>tasksDirty\<close> is \<open>None\<close> as long
  as it has never been assigned.
\<close>

record 't entity =
  e_uuid :: prim
  e_type :: prim
  e_name :: prim
  e_components :: "ref list"
  e_tasks :: "'t list"
  tasksDirty :: "bool option"
  e_dirty :: bool

text \<open>
  A configuration record. An absent \<^verbatim>\<open>uuid\<close>, \<^verbatim>\<open>type\<close> or \<^verbatim>\<open>name\<close> reads as
  \<open>PUndefined\<close>; an absent \<^verbatim>\<open>components\<close> or \<^verbatim>\<open>tasks\<close> array is \<open>None\<close>.
\<close>

record ('c, 't) config =
  cfg_uuid :: prim
  cfg_type :: prim
  cfg_name :: prim
  cfg_components :: "'c list option"
  cfg_tasks :: "'t list option"

text \<open>What a method hands back to its caller.\<close>

datatype ('v, 't) ret =
    RUndefined
  | RNull
  | RBool bool
  | RPrim prim
  | RTypes "string list"
  | RComponents "ref list"
  | RComponent ref
  | RData "'v payload"
  | RTask 't
  | RTasks "'t list"
  | REntity "'t entity"

subsubsection \<open>Read-only methods\<close>

definition getComponents :: "'t entity \<Rightarrow> ref list" where
  "getComponents this = e_components this"

definition getName :: "'t entity \<Rightarrow> prim" where
  "getName this = e_name this"

definition getType :: "'t entity \<Rightarrow> prim" where
  "getType this = e_type this"

definition getUUID :: "'t entity \<Rightarrow> prim" where
  "getUUID this = e_uuid this"

definition getTasks :: "'t entity \<Rightarrow> 't list" where
  "getTasks this = e_tasks this"

definition isDirty :: "'t entity \<Rightarrow> bool" where
  "isDirty this = e_dirty this"

definition hasComponent :: "'t entity \<Rightarrow> 'v store \<Rightarrow> string \<Rightarrow> bool" where
  "hasComponent this h type = hasItem type (e_components this) (\<lambda>r. c_type (h ! r))"

definition getComponent :: "'t entity \<Rightarrow> 'v store \<Rightarrow> string \<Rightarrow> ref option" where
  "getComponent this h type = getItem type (e_components this) (\<lambda>r. c_type (h ! r))"

definition getComponentList :: "'t entity \<Rightarrow> 'v store \<Rightarrow> string list" where
  "getComponentList this h = map (\<lambda>component. Component_getType (h ! component)) (e_components this)"

text \<open>\<^verbatim>\<open>this._tasks[ 0 ]\<close>: reading index 0 of an empty array gives undefined.\<close>

definition getCurrentTask :: "'t entity \<Rightarrow> ('v, 't) ret" where
  "getCurrentTask this = (case e_tasks this of [] \<Rightarrow> RUndefined | t # ts \<Rightarrow> RTask t)"

definition getData :: "'t entity \<Rightarrow> 'v store \<Rightarrow> string \<Rightarrow> ('v, 't) ret" where
  "getData this h type =
     (case getComponent this h type of
        None \<Rightarrow> RNull
      | Some component \<Rightarrow> RData (Component_getData (h ! component)))"

subsubsection \<open>Adding a component, and the constructor\<close>

text \<open>
  \<^verbatim>\<open>_addComponent(component)\<close> (an Isabelle name cannot start with an underscore).
  The argument is a reference into the store.
\<close>

definition addComponent :: "'t entity \<Rightarrow> ref \<Rightarrow> 'v store \<Rightarrow> ('v, 't) ret \<times> 't entity" where
  "addComponent this component h =
     (if hasComponent this h (Component_getType (h ! component)) then (RNull, this)
      else (let this' = this\<lparr>e_components := e_components this @ [component],
                              e_dirty := True\<rparr>
            in (RComponents (e_components this'), this')))"

text \<open>
  The loop \<^verbatim>\<open>config.components.forEach( data => this._addComponent( new Component( data ) ) )\<close>.
  The Component constructor is the parameter \<open>mk\<close>: the object it builds from one
  configuration entry. Every entry allocates an object, added or not.
\<close>

fun addEach :: "('c \<Rightarrow> 'v component) \<Rightarrow> 'c list \<Rightarrow> 't entity \<Rightarrow> 'v store \<Rightarrow> 't entity \<times> 'v store" where
  "addEach mk [] this h = (this, h)"
| "addEach mk (data # rest) this h =
     (let h' = h @ [mk data];
          this' = snd (addComponent this (length h) h')
      in addEach mk rest this' h')"

text \<open>
  \<^verbatim>\<open>new Entity(config)\<close>. \<open>gen\<close> is the identifier that \<^verbatim>\<open>UUID()\<close> returns when it
  is called. No configuration (\<open>None\<close>) takes the fresh branch. Reading
  \<^verbatim>\<open>forEach\<close> of an absent \<^verbatim>\<open>config.components\<close> throws a TypeError, and then
  \<^verbatim>\<open>new\<close> yields no object. While the components are added the fields
  \<^verbatim>\<open>_tasks\<close>, \<^verbatim>\<open>tasksDirty\<close> and \<^verbatim>\<open>_dirty\<close> are not yet assigned; they are
  written after the loop.
\<close>

definition fresh :: "string \<Rightarrow> 't entity" where
  "fresh gen = \<lparr>e_uuid = PStr gen, e_type = PStr ''untyped'', e_name = PStr ''No Name'',
                e_components = [], e_tasks = [], tasksDirty = None, e_dirty = False\<rparr>"

definition Entity_new ::
  "('c \<Rightarrow> 'v component) \<Rightarrow> string \<Rightarrow> ('c, 't) config option \<Rightarrow> 'v store
     \<Rightarrow> error + ('t entity \<times> 'v store)" where
  "Entity_new mk gen config h =
     (case config of
        None \<Rightarrow> Inr (fresh gen, h)
      | Some cfg \<Rightarrow>
          (let this0 = \<lparr>e_uuid = js_or (cfg_uuid cfg) (PStr gen),
                        e_type = js_or (cfg_type cfg) (PStr ''no-type''),
                        e_name = js_or (cfg_name cfg) (PStr ''No Name''),
                        e_components = [], e_tasks = [], tasksDirty = None, e_dirty = False\<rparr>
           in case cfg_components cfg of
                None \<Rightarrow> Inl TypeError
              | Some datas \<Rightarrow>
                  (let (this1, h1) = addEach mk datas this0 h;
                       this2 = this1\<lparr>e_tasks := (case cfg_tasks cfg of None \<Rightarrow> [] | Some ts \<Rightarrow> ts)\<rparr>;
                       this3 = this2\<lparr>tasksDirty := Some False\<rparr>;
                       this4 = this3\<lparr>e_dirty := False\<rparr>
                   in Inr (this4, h1))))"

subsubsection \<open>Removing a component\<close>

text \<open>
  \<^verbatim>\<open>Array.prototype.indexOf\<close>: the first index holding the searched value, by
  strict equality (on objects: the same reference); \<open>None\<close> stands for \<open>-1\<close>.
\<close>

fun indexOf :: "'a list \<Rightarrow> 'a \<Rightarrow> nat option" where
  "indexOf [] x = None"
| "indexOf (y # ys) x = (if y = x then Some 0 else map_option Suc (indexOf ys x))"

text \<open>\<^verbatim>\<open>array.splice( index, 1 )\<close>.\<close>

definition splice1 :: "nat \<Rightarrow> 'a list \<Rightarrow> 'a list" where
  "splice1 i xs = take i xs @ drop (Suc i) xs"

text \<open>
  \<^verbatim>\<open>_removeComponent(type)\<close>. When \<^verbatim>\<open>getComponent\<close> finds nothing, the array of
  component objects does not hold the not-found value, and \<^verbatim>\<open>indexOf\<close> is \<open>-1\<close>.
\<close>

definition removeComponent :: "'t entity \<Rightarrow> string \<Rightarrow> 'v store \<Rightarrow> ('v, 't) ret \<times> 't entity" where
  "removeComponent this type h =
     (let index = (case getComponent this h type of
                     None \<Rightarrow> None
                   | Some component \<Rightarrow> indexOf (e_components this) component)
      in case index of
           None \<Rightarrow> (RNull, this)
         | Some i \<Rightarrow>
             (let this' = this\<lparr>e_components := splice1 i (e_components this),
                               e_dirty := True\<rparr>
              in (RComponents (e_components this'), this')))"

subsubsection \<open>Copying and cloning\<close>

text \<open>
  The argument of \<^verbatim>\<open>copy(source)\<close> is a reference to an Entity: either the very
  object the method is called on, or another Entity. In the first case every
  write to \<^verbatim>\<open>this\<close> is seen through \<^verbatim>\<open>source\<close>.
\<close>

datatype 't source = This | Other "'t entity"

definition deref :: "'t entity \<Rightarrow> 't source \<Rightarrow> 't entity" where
  "deref this source = (case source of This \<Rightarrow> this | Other s \<Rightarrow> s)"

text \<open>
  The loop \<^verbatim>\<open>forEach( component => this._components.push( component.clone() ) )\<close>,
  with the array being filled as accumulator.
\<close>

fun cloneEach :: "ref list \<Rightarrow> ref list \<Rightarrow> 'v store \<Rightarrow> ref list \<times> 'v store" where
  "cloneEach [] acc h = (acc, h)"
| "cloneEach (component # rest) acc h =
     (let (r, h') = Component_clone component h
      in cloneEach rest (acc @ [r]) h')"

definition copy :: "'t entity \<Rightarrow> 't source \<Rightarrow> 'v store \<Rightarrow> ('v, 't) ret \<times> 't entity \<times> 'v store" where
  "copy this source h =
     (let this1 = this\<lparr>e_type := getType (deref this source)\<rparr>;
          this2 = this1\<lparr>e_name := getName (deref this1 source)\<rparr>;
          this3 = this2\<lparr>e_components := []\<rparr>;
          (cs, h') = cloneEach (getComponents (deref this3 source)) (e_components this3) h;
          this4 = this3\<lparr>e_components := cs\<rparr>;
          this5 = this4\<lparr>e_dirty := True\<rparr>
      in (RComponents (e_components this5), this5, h'))"

text \<open>
  \<^verbatim>\<open>clone()\<close> is \<^verbatim>\<open>return new this.constructor().copy( this )\<close>: the constructor
  runs without a configuration, and the caller receives what \<^verbatim>\<open>copy\<close> returns.
  The Entity that was built is referenced by nothing afterwards.
\<close>

definition clone :: "'t entity \<Rightarrow> string \<Rightarrow> 'v store \<Rightarrow> ('v, 't) ret \<times> 'v store" where
  "clone this gen h =
     (let (r, built, h') = copy (fresh gen) (Other this) h
      in (r, h'))"

subsubsection \<open>Mutators\<close>

text \<open>\<^verbatim>\<open>setDirty( dirty = true )\<close>: a missing argument takes the default.\<close>

definition setDirty :: "'t entity \<Rightarrow> bool option \<Rightarrow> ('v, 't) ret \<times> 't entity" where
  "setDirty this dirty =
     (let this' = this\<lparr>e_dirty := (case dirty of None \<Rightarrow> True | Some d \<Rightarrow> d)\<rparr>
      in (RBool (e_dirty this'), this'))"

text \<open>
  The loop of \<^verbatim>\<open>setComponentData(type, data)\<close> over the component array, from
  index 0; it returns at the first component of the given type.
\<close>

fun setComponentData_from ::
  "ref list \<Rightarrow> 't entity \<Rightarrow> string \<Rightarrow> 'v payload \<Rightarrow> 'v store \<Rightarrow> ('v, 't) ret \<times> 't entity \<times> 'v store" where
  "setComponentData_from [] this type data h = (RNull, this, h)"
| "setComponentData_from (c # rest) this type data h =
     (if Component_getType (h ! c) = type
      then (let h' = Component_apply c data h;
                this' = snd (setDirty this None :: ('v, 't) ret \<times> 't entity)
            in (RComponent c, this', h'))
      else setComponentData_from rest this type data h)"

definition setComponentData ::
  "'t entity \<Rightarrow> string \<Rightarrow> 'v payload \<Rightarrow> 'v store \<Rightarrow> ('v, 't) ret \<times> 't entity \<times> 'v store" where
  "setComponentData this type data h = setComponentData_from (e_components this) this type data h"

text \<open>
  The task methods all end with \<^verbatim>\<open>return this.tasks\<close>; the class has no property
  of that name (the array is \<^verbatim>\<open>_tasks\<close>), so they return undefined.
\<close>

definition setTasks :: "'t entity \<Rightarrow> 't list \<Rightarrow> ('v, 't) ret \<times> 't entity" where
  "setTasks this tasks =
     (let this1 = this\<lparr>e_tasks := tasks\<rparr>;
          this2 = this1\<lparr>tasksDirty := Some True\<rparr>;
          this3 = snd (setDirty this2 None :: ('v, 't) ret \<times> 't entity)
      in (RUndefined, this3))"

text \<open>\<^verbatim>\<open>this._tasks.concat( tasks )\<close> builds a new array, which is dropped.\<close>

definition appendTasks :: "'t entity \<Rightarrow> 't list \<Rightarrow> ('v, 't) ret \<times> 't entity" where
  "appendTasks this tasks =
     (let dropped = e_tasks this @ tasks;
          this1 = snd (setDirty this None :: ('v, 't) ret \<times> 't entity)
      in (RUndefined, this1))"

definition insertTasks :: "'t entity \<Rightarrow> 't list \<Rightarrow> ('v, 't) ret \<times> 't entity" where
  "insertTasks this tasks =
     (let this1 = this\<lparr>e_tasks := tasks @ e_tasks this\<rparr>;
          this2 = this1\<lparr>tasksDirty := Some True\<rparr>;
          this3 = snd (setDirty this2 None :: ('v, 't) ret \<times> 't entity)
      in (RUndefined, this3))"

text \<open>\<^verbatim>\<open>this._tasks.shift()\<close> removes the first element; on an empty array it does nothing.\<close>

definition shift :: "'a list \<Rightarrow> 'a list" where
  "shift xs = (case xs of [] \<Rightarrow> [] | x # rest \<Rightarrow> rest)"

definition advanceTasks :: "'t entity \<Rightarrow> ('v, 't) ret \<times> 't entity" where
  "advanceTasks this =
     (let this1 = this\<lparr>e_tasks := shift (e_tasks this)\<rparr>;
          this2 = this1\<lparr>tasksDirty := Some True\<rparr>;
          this3 = snd (setDirty this2 None :: ('v, 't) ret \<times> 't entity)
      in (RUndefined, this3))"

text \<open>\<^verbatim>\<open>print()\<close> writes to the console and returns \<^verbatim>\<open>this\<close>.\<close>

definition print :: "'t entity \<Rightarrow> ('v, 't) ret \<times> 't entity" where
  "print this = (REntity this, this)"

subsection \<open>Method calls and reachable states\<close>

text \<open>Every method of the class, with its arguments.\<close>

datatype ('v, 't) call =
    AddComponent ref
  | RemoveComponent string
  | Clone string
  | Copy "'t source"
  | GetComponent string
  | GetComponentList
  | GetComponents
  | GetCurrentTask
  | GetData string
  | GetName
  | GetTasks
  | GetType
  | GetUUID
  | HasComponent string
  | IsDirty
  | Print
  | SetComponentData string "'v payload"
  | SetDirty "bool option"
  | SetTasks "'t list"
  | AppendTasks "'t list"
  | InsertTasks "'t list"
  | AdvanceTasks

text \<open>One call on an Entity: the value returned, the Entity and the store afterwards.\<close>

fun invoke :: "('v, 't) call \<Rightarrow> 't entity \<Rightarrow> 'v store \<Rightarrow> ('v, 't) ret \<times> 't entity \<times> 'v store" where
  "invoke (AddComponent component) this h =
     (let (r, this') = addComponent this component h in (r, this', h))"
| "invoke (RemoveComponent type) this h =
     (let (r, this') = removeComponent this type h in (r, this', h))"
| "invoke (Clone gen) this h = (let (r, h') = clone this gen h in (r, this, h'))"
| "invoke (Copy source) this h = copy this source h"
| "invoke (GetComponent type) this h =
     ((case getComponent this h type of None \<Rightarrow> RNull | Some c \<Rightarrow> RComponent c), this, h)"
| "invoke GetComponentList this h = (RTypes (getComponentList this h), this, h)"
| "invoke GetComponents this h = (RComponents (getComponents this), this, h)"
| "invoke GetCurrentTask this h = (getCurrentTask this, this, h)"
| "invoke (GetData type) this h = (getData this h type, this, h)"
| "invoke GetName this h = (RPrim (getName this), this, h)"
| "invoke GetTasks this h = (RTasks (getTasks this), this, h)"
| "invoke GetType this h = (RPrim (getType this), this, h)"
| "invoke GetUUID this h = (RPrim (getUUID this), this, h)"
| "invoke (HasComponent type) this h = (RBool (hasComponent this h type), this, h)"
| "invoke IsDirty this h = (RBool (isDirty this), this, h)"
| "invoke Print this h = (let (r, this') = print this in (r, this', h))"
| "invoke (SetComponentData type data) this h = setComponentData this type data h"
| "invoke (SetDirty dirty) this h = (let (r, this') = setDirty this dirty in (r, this', h))"
| "invoke (SetTasks tasks) this h = (let (r, this') = setTasks this tasks in (r, this', h))"
| "invoke (AppendTasks tasks) this h = (let (r, this') = appendTasks this tasks in (r, this', h))"
| "invoke (InsertTasks tasks) this h = (let (r, this') = insertTasks this tasks in (r, this', h))"
| "invoke AdvanceTasks this h = (let (r, this') = advanceTasks this in (r, this', h))"

text \<open>
  The expression \<^verbatim>\<open>value.setComponentData( type, data )\<close> on a value that some
  method returned. Only an Entity has the method; on null and undefined the
  property read throws, and on every other value the property is undefined and
  calling it throws. Both are TypeErrors.
\<close>

definition setComponentData_on ::
  "('v, 't) ret \<Rightarrow> string \<Rightarrow> 'v payload \<Rightarrow> 'v store
     \<Rightarrow> error + (('v, 't) ret \<times> 't entity \<times> 'v store)" where
  "setComponentData_on receiver type data h =
     (case receiver of
        REntity this \<Rightarrow> Inr (setComponentData this type data h)
      | _ \<Rightarrow> Inl TypeError)"

text \<open>
  The references of a component array denote objects of the store. In a running
  program every reference does; in the model it is a condition on the index.
\<close>

definition allocated :: "ref list \<Rightarrow> 'v store \<Rightarrow> bool" where
  "allocated rs h = list_all (\<lambda>r. r < length h) rs"

text \<open>
  The Entities that construction followed by any sequence of \<^verbatim>\<open>_addComponent\<close>
  and \<^verbatim>\<open>_removeComponent\<close> calls produces, with the store they live in. Between
  two calls the program may create further Components.
\<close>

inductive reachable :: "('c \<Rightarrow> 'v component) \<Rightarrow> 't entity \<Rightarrow> 'v store \<Rightarrow> bool"
  for mk :: "'c \<Rightarrow> 'v component" where
  constructed:
    "Entity_new mk gen config h0 = Inr (this, h) \<Longrightarrow> reachable mk this h"
| created:
    "reachable mk this h \<Longrightarrow> reachable mk this (h @ [c])"
| added:
    "reachable mk this h \<Longrightarrow> component < length h \<Longrightarrow>
     addComponent this component h = (r, this') \<Longrightarrow> reachable mk this' h"
| removed:
    "reachable mk this h \<Longrightarrow>
     removeComponent this type h = (r, this') \<Longrightarrow> reachable mk this' h"

text \<open>
  The invariant of the component array: its references are objects of the store,
  and no two of them have the same type.
\<close>

definition unique_types :: "'t entity \<Rightarrow> 'v store \<Rightarrow> bool" where
  "unique_types this h \<longleftrightarrow>
     allocated (e_components this) h \<and> distinct (map (\<lambda>r. c_type (h ! r)) (e_components this))"

subsection \<open>A worked scenario\<close>

text \<open>
  The example of the specification: an assembly with the components X and Y, and
  an Entity with a Y of its own and a Z, in one store; and a configuration record
  that lists the type X twice.
\<close>

definition scenario_store :: "int store" where
  "scenario_store =
     [\<lparr>c_type = ''X'', c_data = [''v'' \<mapsto> 1]\<rparr>, \<lparr>c_type = ''Y'', c_data = [''v'' \<mapsto> 2]\<rparr>,
      \<lparr>c_type = ''Y'', c_data = [''v'' \<mapsto> 3]\<rparr>, \<lparr>c_type = ''Z'', c_data = [''v'' \<mapsto> 4]\<rparr>]"

definition scenario_assembly :: "nat entity" where
  "scenario_assembly = \<lparr>e_uuid = PStr ''a'', e_type = PStr ''tank'', e_name = PStr ''Tank'',
      e_components = [0, 1], e_tasks = [], tasksDirty = Some False, e_dirty = False\<rparr>"

definition scenario_target :: "nat entity" where
  "scenario_target = \<lparr>e_uuid = PStr ''e'', e_type = PStr ''untyped'', e_name = PStr ''No Name'',
             e_components = [2, 3], e_tasks = [7], tasksDirty = None, e_dirty = False\<rparr>"

definition scenario_config :: "(int component, nat) config" where
  "scenario_config =
     \<lparr>cfg_uuid = PUndefined, cfg_type = PStr ''tank'', cfg_name = PUndefined,
      cfg_components = Some [\<lparr>c_type = ''X'', c_data = [''v'' \<mapsto> 1]\<rparr>,
                             \<lparr>c_type = ''X'', c_data = [''v'' \<mapsto> 5]\<rparr>,
                             \<lparr>c_type = ''Y'', c_data = [''v'' \<mapsto> 2]\<rparr>],
      cfg_tasks = None\<rparr>"

section \<open>Properties\<close>

subsection \<open>The store under cloning\<close>

lemma component_eta: "\<lparr>c_type = c_type x, c_data = c_data x\<rparr> = (x :: 'v component)"
  by (cases x) simp

lemma Component_clone_eq: "Component_clone r h = (length h, h @ [h ! r])"
  by (simp add: Component_clone_def component_eta)

lemma cloneEach_refs:
  "fst (cloneEach cs acc h) = acc @ [length h ..< length h + length cs]"
proof (induction cs arbitrary: acc h)
  case Nil
  show ?case by simp
next
  case (Cons c cs)
  have "[length h ..< length h + Suc (length cs)]
          = length h # [Suc (length h) ..< Suc (length h) + length cs]"
    by (simp add: upt_rec)
  with Cons show ?case by (simp add: Component_clone_def)
qed

lemma cloneEach_store:
  "allocated cs h \<Longrightarrow> snd (cloneEach cs acc h) = h @ map (\<lambda>r. h ! r) cs"
proof (induction cs arbitrary: acc h)
  case Nil
  show ?case by simp
next
  case (Cons c cs)
  let ?h' = "h @ [h ! c]"
  from Cons.prems have cs: "allocated cs h"
    by (simp add: allocated_def)
  from cs have cs': "allocated cs ?h'"
    by (simp add: allocated_def list_all_iff) (meson less_SucI)
  have same: "map (\<lambda>r. ?h' ! r) cs = map (\<lambda>r. h ! r) cs"
    using cs by (simp add: allocated_def list_all_iff nth_append)
  from Cons.IH [OF cs'] same show ?case by (simp add: Component_clone_eq)
qed

lemma copy_Other:
  "copy this (Other a) h =
     (RComponents (fst (cloneEach (e_components a) [] h)),
      this\<lparr>e_type := e_type a, e_name := e_name a,
           e_components := fst (cloneEach (e_components a) [] h), e_dirty := True\<rparr>,
      snd (cloneEach (e_components a) [] h))"
  by (simp add: copy_def deref_def getType_def getName_def getComponents_def Let_def
      split: prod.splits)

subsection \<open>Lookup by type\<close>

lemma hasItem_iff: "hasItem target array prop \<longleftrightarrow> target \<in> prop ` set array"
  by (auto simp: hasItem_def find_None_iff split: option.splits dest: find_Some_iff [THEN iffD1])

lemma hasItem_iff_getItem: "hasItem target array prop \<longleftrightarrow> getItem target array prop \<noteq> None"
  by (simp add: hasItem_def getItem_def split: option.splits)

lemma hasComponent_iff:
  "hasComponent this h type \<longleftrightarrow> type \<in> (\<lambda>r. c_type (h ! r)) ` set (e_components this)"
  by (simp add: hasComponent_def hasItem_iff)

lemma getComponent_None_iff:
  "getComponent this h type = None \<longleftrightarrow> \<not> hasComponent this h type"
  by (simp add: getComponent_def hasComponent_def hasItem_iff_getItem)

lemma setComponentData_from_eq:
  "setComponentData_from cs this type data h =
     (case List.find (\<lambda>r. c_type (h ! r) = type) cs of
        None \<Rightarrow> (RNull, this, h)
      | Some c \<Rightarrow> (RComponent c, this\<lparr>e_dirty := True\<rparr>, Component_apply c data h))"
  by (induction cs) (simp_all add: Component_getType_def setDirty_def)

lemma setComponentData_eq:
  "setComponentData this type data h =
     (case getComponent this h type of
        None \<Rightarrow> (RNull, this, h)
      | Some c \<Rightarrow> (RComponent c, this\<lparr>e_dirty := True\<rparr>, Component_apply c data h))"
  by (simp add: setComponentData_def setComponentData_from_eq getComponent_def getItem_def)

subsection \<open>The constructor\<close>

lemma addComponent_fields:
  "e_uuid (snd (addComponent this c h)) = e_uuid this"
  "e_type (snd (addComponent this c h)) = e_type this"
  "e_name (snd (addComponent this c h)) = e_name this"
  by (simp_all add: addComponent_def Let_def)

lemma addEach_fields:
  "e_uuid (fst (addEach mk datas this h)) = e_uuid this
   \<and> e_type (fst (addEach mk datas this h)) = e_type this
   \<and> e_name (fst (addEach mk datas this h)) = e_name this"
  by (induction datas arbitrary: this h) (simp_all add: Let_def addComponent_fields)

lemma addEach_fieldsD:
  "addEach mk datas this h = (this', h') \<Longrightarrow>
   e_uuid this' = e_uuid this \<and> e_type this' = e_type this \<and> e_name this' = e_name this"
  using addEach_fields [of mk datas this h] by simp

lemma Entity_new_config:
  "cfg_components cfg = Some datas \<Longrightarrow>
   Entity_new mk gen (Some cfg) h = Inr (this, h') \<Longrightarrow>
   e_uuid this = js_or (cfg_uuid cfg) (PStr gen)
   \<and> e_type this = js_or (cfg_type cfg) (PStr ''no-type'')
   \<and> e_name this = js_or (cfg_name cfg) (PStr ''No Name'')"
  by (auto simp: Entity_new_def Let_def split: prod.splits dest!: addEach_fieldsD)

lemma Entity_new_returns:
  "cfg_components cfg = Some datas \<Longrightarrow> \<exists>this h'. Entity_new mk gen (Some cfg) h = Inr (this, h')"
  by (simp add: Entity_new_def Let_def split: prod.splits)

lemma Entity_new_falsy:
  "\<not> truthy (cfg_uuid cfg) \<Longrightarrow>
     Entity_new mk gen (Some (cfg\<lparr>cfg_uuid := PUndefined\<rparr>)) h = Entity_new mk gen (Some cfg) h"
  "\<not> truthy (cfg_type cfg) \<Longrightarrow>
     Entity_new mk gen (Some (cfg\<lparr>cfg_type := PUndefined\<rparr>)) h = Entity_new mk gen (Some cfg) h"
  "\<not> truthy (cfg_name cfg) \<Longrightarrow>
     Entity_new mk gen (Some (cfg\<lparr>cfg_name := PUndefined\<rparr>)) h = Entity_new mk gen (Some cfg) h"
  by (simp_all add: Entity_new_def js_or_def Let_def split: option.splits prod.splits)

subsection \<open>The dirty flag\<close>

lemma Entity_new_clean:
  "Entity_new mk gen config h0 = Inr (built, h1) \<Longrightarrow> \<not> e_dirty built"
  by (auto simp: Entity_new_def fresh_def Let_def split: option.splits prod.splits)

lemma copy_dirty: "e_dirty (fst (snd (copy this source h)))"
  by (simp add: copy_def Let_def split: prod.splits)

lemma setComponentData_dirty:
  "fst (setComponentData this type data h) \<noteq> RNull \<Longrightarrow>
   e_dirty (fst (snd (setComponentData this type data h)))"
  by (simp add: setComponentData_eq split: option.splits)

lemma dirty_kept:
  "c \<noteq> SetDirty (Some False) \<Longrightarrow> e_dirty this \<Longrightarrow> e_dirty (fst (snd (invoke c this h)))"
proof (cases c)
  case (AddComponent component)
  then show "e_dirty this \<Longrightarrow> ?thesis" by (simp add: addComponent_def Let_def)
next
  case (RemoveComponent type)
  then show "e_dirty this \<Longrightarrow> ?thesis"
    by (simp add: removeComponent_def Let_def split: option.splits)
next
  case (Clone gen)
  then show "e_dirty this \<Longrightarrow> ?thesis" by (simp split: prod.splits)
next
  case (Copy source)
  then show ?thesis by (simp add: copy_dirty)
next
  case (SetComponentData type data)
  then show "e_dirty this \<Longrightarrow> ?thesis" by (simp add: setComponentData_eq split: option.splits)
next
  case (SetDirty dirty)
  then show "c \<noteq> SetDirty (Some False) \<Longrightarrow> ?thesis"
    by (cases dirty) (simp_all add: setDirty_def)
qed (simp_all add: setTasks_def appendTasks_def insertTasks_def advanceTasks_def setDirty_def
      print_def)

subsection \<open>Copying into an Entity\<close>

lemma copy_Other_allocated:
  assumes "allocated (e_components a) h"
  shows "copy this (Other a) h =
     (RComponents [length h ..< length h + length (e_components a)],
      this\<lparr>e_type := e_type a, e_name := e_name a,
           e_components := [length h ..< length h + length (e_components a)], e_dirty := True\<rparr>,
      h @ map (\<lambda>r. h ! r) (e_components a))"
  by (simp add: copy_Other cloneEach_refs cloneEach_store [OF assms])

lemma allocated_nth_append:
  "allocated rs h \<Longrightarrow> x \<in> set rs \<Longrightarrow> (h @ ys) ! x = h ! x"
  by (simp add: allocated_def list_all_iff nth_append)

lemma Component_apply_other: "x \<noteq> c \<Longrightarrow> Component_apply c data h ! x = h ! x"
  by (simp add: Component_apply_def)

lemma getComponent_in:
  "getComponent this h type = Some c \<Longrightarrow> c \<in> set (e_components this)"
  by (auto simp: getComponent_def getItem_def find_Some_iff)

lemma setComponentData_frame:
  "x \<notin> set (e_components this) \<Longrightarrow> snd (snd (setComponentData this type data h)) ! x = h ! x"
proof (cases "getComponent this h type")
  case None
  then show ?thesis by (simp add: setComponentData_eq)
next
  case (Some c)
  assume "x \<notin> set (e_components this)"
  with getComponent_in [OF Some] have "x \<noteq> c" by blast
  with Some show ?thesis by (simp add: setComponentData_eq Component_apply_other)
qed

lemma getData_cong:
  assumes "\<forall>x\<in>set (e_components this). h1 ! x = h2 ! x"
  shows "getData this h1 type = getData this h2 type"
proof -
  have "getComponent this h1 type = getComponent this h2 type"
    unfolding getComponent_def getItem_def
    by (rule find_cong) (use assms in auto)
  with assms show ?thesis
    by (auto simp: getData_def split: option.splits dest: getComponent_in)
qed

lemma clone_eq:
  "clone a gen h = (fst (copy (fresh gen) (Other a) h), snd (snd (copy (fresh gen) (Other a) h)))"
  by (simp add: clone_def split: prod.splits)

lemma copy_This:
  "copy this This h = (RComponents [], this\<lparr>e_components := [], e_dirty := True\<rparr>, h)"
  by (simp add: copy_def deref_def getType_def getName_def getComponents_def)

lemma new_refs_disjoint:
  "allocated rs h \<Longrightarrow> set [length h ..< length h + n] \<inter> set rs = {}"
  by (auto simp: allocated_def list_all_iff)

lemma copy_frame:
  assumes a: "allocated (e_components a) h"
    and copy: "copy this (Other a) h = (r, this', h')"
  shows "set (e_components this') \<inter> set (e_components a) = {}"
    and "\<forall>x\<in>set (e_components a). h' ! x = h ! x"
    and "\<forall>x\<in>set (e_components a). snd (snd (setComponentData this' type data h')) ! x = h ! x"
    and "\<forall>x\<in>set (e_components this'). snd (snd (setComponentData a type data h')) ! x = h' ! x"
proof -
  from copy copy_Other_allocated [OF a, of this]
  have cs: "e_components this' = [length h ..< length h + length (e_components a)]"
    and h': "h' = h @ map (\<lambda>r. h ! r) (e_components a)"
    by auto
  show disj: "set (e_components this') \<inter> set (e_components a) = {}"
    unfolding cs by (rule new_refs_disjoint [OF a])
  show old: "\<forall>x\<in>set (e_components a). h' ! x = h ! x"
    unfolding h' using allocated_nth_append [OF a] by blast
  show "\<forall>x\<in>set (e_components a). snd (snd (setComponentData this' type data h')) ! x = h ! x"
  proof
    fix x assume x: "x \<in> set (e_components a)"
    with disj have "x \<notin> set (e_components this')" by blast
    then have "snd (snd (setComponentData this' type data h')) ! x = h' ! x"
      by (rule setComponentData_frame)
    with old x show "snd (snd (setComponentData this' type data h')) ! x = h ! x" by simp
  qed
  show "\<forall>x\<in>set (e_components this'). snd (snd (setComponentData a type data h')) ! x = h' ! x"
  proof
    fix x assume "x \<in> set (e_components this')"
    with disj have "x \<notin> set (e_components a)" by blast
    then show "snd (snd (setComponentData a type data h')) ! x = h' ! x"
      by (rule setComponentData_frame)
  qed
qed

lemma scenario_allocated: "allocated (e_components scenario_assembly) scenario_store"
  by (simp add: allocated_def scenario_assembly_def scenario_store_def)

lemma scenario_copy:
  "copy scenario_target (Other scenario_assembly) scenario_store =
     (RComponents [4, 5],
      scenario_target\<lparr>e_type := PStr ''tank'', e_name := PStr ''Tank'',
                      e_components := [4, 5], e_dirty := True\<rparr>,
      scenario_store @ [scenario_store ! 0, scenario_store ! 1])"
  by (simp add: copy_Other_allocated [OF scenario_allocated])
     (simp add: scenario_assembly_def scenario_store_def upt_rec)

subsection \<open>Uniqueness of component types\<close>

lemma distinct_splice1: "distinct xs \<Longrightarrow> distinct (splice1 i xs)"
proof -
  assume d: "distinct xs"
  then have "distinct (take i xs @ drop i xs)" by simp
  then have "set (take i xs) \<inter> set (drop i xs) = {}" by (simp only: distinct_append)
  moreover have "set (drop (Suc i) xs) \<subseteq> set (drop i xs)"
    by (rule set_drop_subset_set_drop) simp
  ultimately have "set (take i xs) \<inter> set (drop (Suc i) xs) = {}" by blast
  with d show ?thesis by (simp add: splice1_def)
qed

lemma map_splice1: "map f (splice1 i xs) = splice1 i (map f xs)"
  by (simp add: splice1_def take_map drop_map)

lemma set_splice1: "set (splice1 i xs) \<subseteq> set xs"
  by (auto simp: splice1_def dest: in_set_takeD in_set_dropD)

lemma unique_types_add:
  assumes "unique_types this h" and "component < length h"
  shows "unique_types (snd (addComponent this component h)) h"
  using assms
  by (auto simp: unique_types_def addComponent_def hasComponent_iff Component_getType_def
      allocated_def Let_def)

lemma unique_types_remove:
  assumes "unique_types this h"
  shows "unique_types (snd (removeComponent this type h)) h"
proof (cases "case getComponent this h type of None \<Rightarrow> None
              | Some component \<Rightarrow> indexOf (e_components this) component")
  case None
  with assms show ?thesis by (simp add: removeComponent_def)
next
  case (Some i)
  have "allocated (splice1 i (e_components this)) h"
    using assms set_splice1 [of i "e_components this"]
    by (auto simp: unique_types_def allocated_def list_all_iff)
  moreover have "distinct (map (\<lambda>r. c_type (h ! r)) (splice1 i (e_components this)))"
    using assms by (simp add: unique_types_def map_splice1 distinct_splice1)
  ultimately show ?thesis
    using Some by (simp add: removeComponent_def unique_types_def)
qed

lemma unique_types_created:
  assumes "unique_types this h"
  shows "unique_types this (h @ [c])"
proof -
  from assms have a: "allocated (e_components this) h"
    and d: "distinct (map (\<lambda>r. c_type (h ! r)) (e_components this))"
    by (simp_all add: unique_types_def)
  have eq: "map (\<lambda>r. c_type ((h @ [c]) ! r)) (e_components this)
             = map (\<lambda>r. c_type (h ! r)) (e_components this)"
    by (rule map_cong [OF refl]) (simp add: allocated_nth_append [OF a])
  from a have a': "allocated (e_components this) (h @ [c])"
    by (auto simp: allocated_def list_all_iff)
  from a' d show ?thesis unfolding unique_types_def eq by blast
qed

lemma unique_types_addEach:
  "unique_types this h \<Longrightarrow>
   unique_types (fst (addEach mk datas this h)) (snd (addEach mk datas this h))"
proof (induction datas arbitrary: this h)
  case Nil
  then show ?case by simp
next
  case (Cons data rest)
  let ?h' = "h @ [mk data]"
  from Cons.prems have "unique_types this ?h'" by (rule unique_types_created)
  then have "unique_types (snd (addComponent this (length h) ?h')) ?h'"
    by (rule unique_types_add) simp
  then show ?case by (simp add: Let_def Cons.IH)
qed

lemma unique_types_fields:
  "unique_types (this\<lparr>e_tasks := ts\<rparr>) h = unique_types this h"
  "unique_types (this\<lparr>tasksDirty := td\<rparr>) h = unique_types this h"
  "unique_types (this\<lparr>e_dirty := d\<rparr>) h = unique_types this h"
  by (simp_all add: unique_types_def)

lemma unique_types_addEachD:
  "addEach mk datas this h = (this', h') \<Longrightarrow> unique_types this h \<Longrightarrow> unique_types this' h'"
  using unique_types_addEach [of this h mk datas] by simp

lemma unique_types_new:
  fixes this :: "'t entity"
  assumes "Entity_new mk gen config h0 = Inr (this, h)"
  shows "unique_types this h"
proof (cases config)
  case None
  with assms show ?thesis
    by (auto simp: Entity_new_def fresh_def unique_types_def allocated_def)
next
  case (Some cfg)
  let ?init = "\<lparr>e_uuid = js_or (cfg_uuid cfg) (PStr gen),
                  e_type = js_or (cfg_type cfg) (PStr ''no-type''),
                  e_name = js_or (cfg_name cfg) (PStr ''No Name''),
                  e_components = [], e_tasks = [], tasksDirty = None, e_dirty = False\<rparr>
                :: 't entity"
  have init: "unique_types ?init h0" by (simp add: unique_types_def allocated_def)
  from assms Some obtain datas this1 where
    each: "addEach mk datas ?init h0 = (this1, h)"
    and built: "this = this1\<lparr>e_tasks := (case cfg_tasks cfg of None \<Rightarrow> [] | Some ts \<Rightarrow> ts),
                           tasksDirty := Some False, e_dirty := False\<rparr>"
    by (auto simp: Entity_new_def Let_def split: option.splits prod.splits)
  from unique_types_addEachD [OF each init] show ?thesis
    by (simp add: built unique_types_fields)
qed

lemma reachable_unique_types: "reachable mk this h \<Longrightarrow> unique_types this h"
proof (induction rule: reachable.induct)
  case (constructed gen config h0 this h)
  then show ?case by (rule unique_types_new)
next
  case (created this h c)
  then show ?case by (simp add: unique_types_created)
next
  case (added this h component r this')
  from unique_types_add [OF added.IH added.hyps(2)] added.hyps(3) show ?case by simp
next
  case (removed this h type r this')
  from unique_types_remove [OF removed.IH, of type] removed.hyps(2) show ?case by simp
qed

lemma distinct_map_filter_le1:
  "distinct (map f xs) \<Longrightarrow> length (filter (\<lambda>x. f x = k) xs) \<le> 1"
proof (induction xs)
  case Nil
  show ?case by simp
next
  case (Cons x xs)
  show ?case
  proof (cases "f x = k")
    case True
    with Cons.prems have "k \<notin> f ` set xs" by simp
    then have "\<forall>y\<in>set xs. f y \<noteq> k" by blast
    then have "filter (\<lambda>x. f x = k) xs = []" by (simp add: filter_empty_conv)
    with True show ?thesis by simp
  next
    case False
    with Cons show ?thesis by simp
  qed
qed

lemma copy_independent:
  assumes "allocated (e_components a) h" and "copy this (Other a) h = (r, this', h')"
  shows "set (e_components this') \<inter> set (e_components a) = {}"
    and "\<forall>x\<in>set (e_components a). snd (snd (setComponentData this' type data h')) ! x = h ! x"
    and "getData a (snd (snd (setComponentData this' type data h'))) type' = getData a h type'"
    and "\<forall>x\<in>set (e_components this'). snd (snd (setComponentData a type data h')) ! x = h' ! x"
    and "getData this' (snd (snd (setComponentData a type data h'))) type'
           = getData this' h' type'"
proof -
  note frame = copy_frame [OF assms]
  show "set (e_components this') \<inter> set (e_components a) = {}" by (rule frame(1))
  show "\<forall>x\<in>set (e_components a). snd (snd (setComponentData this' type data h')) ! x = h ! x"
    by (rule frame(3))
  then show "getData a (snd (snd (setComponentData this' type data h'))) type' = getData a h type'"
    by (rule getData_cong)
  show "\<forall>x\<in>set (e_components this'). snd (snd (setComponentData a type data h')) ! x = h' ! x"
    by (rule frame(4))
  then show "getData this' (snd (snd (setComponentData a type data h'))) type'
              = getData this' h' type'"
    by (rule getData_cong)
qed

lemma scenario_clone:
  "clone scenario_assembly gen scenario_store =
     (RComponents [4, 5], scenario_store @ [scenario_store ! 0, scenario_store ! 1])"
  by (simp add: clone_eq copy_Other_allocated [OF scenario_allocated])
     (simp add: scenario_assembly_def scenario_store_def upt_rec)

subsection \<open>Successful mutations\<close>

lemma indexOf_Some: "x \<in> set xs \<Longrightarrow> \<exists>i. indexOf xs x = Some i"
  by (induction xs) auto

lemma getComponent_Some:
  "hasComponent this h type \<Longrightarrow> \<exists>c. getComponent this h type = Some c"
  using getComponent_None_iff [of this h type] by (cases "getComponent this h type") simp_all

lemma addComponent_succeeds:
  assumes "\<not> hasComponent this h (Component_getType (h ! component))"
  shows "addComponent this component h =
           (RComponents (e_components this @ [component]),
            this\<lparr>e_components := e_components this @ [component], e_dirty := True\<rparr>)"
  using assms by (simp add: addComponent_def)

lemma removeComponent_succeeds:
  assumes "hasComponent this h type"
  shows "fst (removeComponent this type h) \<noteq> RNull
         \<and> e_dirty (snd (removeComponent this type h))"
proof -
  from getComponent_Some [OF assms] obtain c where c: "getComponent this h type = Some c" ..
  from getComponent_in [OF c] have "c \<in> set (e_components this)" .
  then obtain i where "indexOf (e_components this) c = Some i"
    using indexOf_Some by fastforce
  with c show ?thesis by (simp add: removeComponent_def)
qed

lemma setComponentData_succeeds:
  assumes "hasComponent this h type"
  shows "fst (setComponentData this type data h) \<noteq> RNull
         \<and> e_dirty (fst (snd (setComponentData this type data h)))"
proof -
  from getComponent_Some [OF assms] obtain c where "getComponent this h type = Some c" ..
  then show ?thesis by (simp add: setComponentData_eq)
qed

subsection \<open>Claims\<close>

text \<open>
  C1. \<^verbatim>\<open>clone()\<close> returns what \<^verbatim>\<open>copy\<close> returns: the array of the cloned
  components, which are the objects created by the call. For no Entity, store and
  generated identifier is the returned value an Entity.
\<close>

theorem clone_returns_component_array:
  "fst (clone this gen h) = RComponents [length h ..< length h + length (e_components this)]
   \<and> fst (clone this gen h) \<noteq> REntity e"
  by (simp add: clone_def copy_Other cloneEach_refs)

text \<open>
  C2. Construction from a configuration record with every optional field absent:
  the record \<^verbatim>\<open>{}\<close> is truthy, so the constructor takes the configuration branch
  and calls \<^verbatim>\<open>forEach\<close> on the absent \<^verbatim>\<open>components\<close>. It raises a TypeError and
  produces no entity, whatever the Component constructor and the store are.
\<close>

theorem Entity_new_components_absent_raises:
  "Entity_new mk gen
     (Some \<lparr>cfg_uuid = PUndefined, cfg_type = PUndefined, cfg_name = PUndefined,
            cfg_components = None, cfg_tasks = None\<rparr>) h = Inl TypeError"
  by (simp add: Entity_new_def)

text \<open>
  C3. \<^verbatim>\<open>appendTasks\<close> changes nothing but \<^verbatim>\<open>_dirty\<close>: the stored task
  sequence stays, and so does \<^verbatim>\<open>tasksDirty\<close>, which the method never assigns.
  On the Entity built from \<^verbatim>\<open>{ components: [], tasks: [t1] }\<close> the flag
  \<^verbatim>\<open>tasksDirty\<close> is false before the call and false after it.
\<close>

theorem appendTasks_leaves_tasksDirty:
  "snd (appendTasks this tasks) = this\<lparr>e_dirty := True\<rparr>
   \<and> Entity_new mk gen
        (Some \<lparr>cfg_uuid = PUndefined, cfg_type = PUndefined, cfg_name = PUndefined,
               cfg_components = Some [], cfg_tasks = Some [t1]\<rparr>) h
       = Inr (\<lparr>e_uuid = PStr gen, e_type = PStr ''no-type'', e_name = PStr ''No Name'',
               e_components = [], e_tasks = [t1], tasksDirty = Some False, e_dirty = False\<rparr>, h)
   \<and> appendTasks \<lparr>e_uuid = PStr gen, e_type = PStr ''no-type'', e_name = PStr ''No Name'',
                   e_components = [], e_tasks = [t1], tasksDirty = Some False, e_dirty = False\<rparr> [t2]
       = (RUndefined,
          \<lparr>e_uuid = PStr gen, e_type = PStr ''no-type'', e_name = PStr ''No Name'',
           e_components = [], e_tasks = [t1], tasksDirty = Some False, e_dirty = True\<rparr>)"
  by (simp add: Entity_new_def js_or_def appendTasks_def setDirty_def)

text \<open>
  C4. In every state that construction (fresh or from a configuration record)
  followed by any sequence of \<^verbatim>\<open>_addComponent\<close> and \<^verbatim>\<open>_removeComponent\<close> calls
  reaches, the Entity has at most one Component of any given type: the component
  types listed by \<^verbatim>\<open>getComponentList\<close> are pairwise different.
\<close>

theorem at_most_one_component_per_type:
  assumes "reachable mk this h"
  shows "length (filter (\<lambda>component. Component_getType (h ! component) = type)
                  (e_components this)) \<le> 1
         \<and> distinct (getComponentList this h)"
proof -
  from reachable_unique_types [OF assms]
  have d: "distinct (map (\<lambda>r. c_type (h ! r)) (e_components this))"
    by (simp add: unique_types_def)
  then have "length (filter (\<lambda>r. c_type (h ! r) = type) (e_components this)) \<le> 1"
    by (rule distinct_map_filter_le1)
  with d show ?thesis
    by (simp add: Component_getType_def getComponentList_def)
qed

theorem at_most_one_component_per_type_witness:
  "reachable (\<lambda>c. c)
     \<lparr>e_uuid = PStr ''g'', e_type = PStr ''tank'', e_name = PStr ''No Name'',
      e_components = [0, 3], e_tasks = ([] :: nat list), tasksDirty = Some False, e_dirty = True\<rparr>
     [\<lparr>c_type = ''X'', c_data = [''v'' \<mapsto> (1::int)]\<rparr>, \<lparr>c_type = ''X'', c_data = [''v'' \<mapsto> 5]\<rparr>,
      \<lparr>c_type = ''Y'', c_data = [''v'' \<mapsto> 2]\<rparr>, \<lparr>c_type = ''Z'', c_data = [''v'' \<mapsto> 4]\<rparr>]
   \<and> length (filter
        (\<lambda>component. Component_getType
           ([\<lparr>c_type = ''X'', c_data = [''v'' \<mapsto> (1::int)]\<rparr>, \<lparr>c_type = ''X'', c_data = [''v'' \<mapsto> 5]\<rparr>,
             \<lparr>c_type = ''Y'', c_data = [''v'' \<mapsto> 2]\<rparr>, \<lparr>c_type = ''Z'', c_data = [''v'' \<mapsto> 4]\<rparr>]
            ! component) = ''X'')
        (e_components
          \<lparr>e_uuid = PStr ''g'', e_type = PStr ''tank'', e_name = PStr ''No Name'',
           e_components = [0, 3], e_tasks = ([] :: nat list), tasksDirty = Some False,
           e_dirty = True\<rparr>)) \<le> 1"
  (is "reachable ?mk ?this3 ?h3 \<and> ?bound")
proof -
  let ?h0 = "[\<lparr>c_type = ''X'', c_data = [''v'' \<mapsto> (1::int)]\<rparr>,
              \<lparr>c_type = ''X'', c_data = [''v'' \<mapsto> 5]\<rparr>,
              \<lparr>c_type = ''Y'', c_data = [''v'' \<mapsto> 2]\<rparr>]"
  let ?built = "\<lparr>e_uuid = PStr ''g'', e_type = PStr ''tank'', e_name = PStr ''No Name'',
      e_components = [0, 2], e_tasks = ([] :: nat list), tasksDirty = Some False,
      e_dirty = False\<rparr>"
  let ?this2 = "\<lparr>e_uuid = PStr ''g'', e_type = PStr ''tank'', e_name = PStr ''No Name'',
      e_components = [0], e_tasks = ([] :: nat list), tasksDirty = Some False,
      e_dirty = True\<rparr>"
  have new: "Entity_new ?mk ''g'' (Some scenario_config) [] = Inr (?built, ?h0)"
    by (simp add: Entity_new_def scenario_config_def js_or_def addComponent_def
        hasComponent_def hasItem_def Component_getType_def)
  have remove: "removeComponent ?built ''Y'' ?h0 = (RComponents [0], ?this2)"
    by (simp add: removeComponent_def getComponent_def getItem_def splice1_def)
  have add: "addComponent ?this2 3 ?h3 = (RComponents [0, 3], ?this3)"
    by (simp add: addComponent_def hasComponent_def hasItem_def Component_getType_def)
  have "reachable ?mk ?built ?h0" using new by (rule constructed)
  then have "reachable ?mk ?this2 ?h0" using remove by (rule removed)
  then have "reachable ?mk ?this2 (?h0 @ [\<lparr>c_type = ''Z'', c_data = [''v'' \<mapsto> 4]\<rparr>])"
    by (rule created)
  then have "reachable ?mk ?this2 ?h3" by simp
  then have reach: "reachable ?mk ?this3 ?h3" using _ add by (rule added) simp
  from reach at_most_one_component_per_type [OF reach, of "''X''"] show ?thesis by blast
qed

text \<open>
  C5. \<^verbatim>\<open>E.copy(A)\<close> for an assembly \<open>A\<close> that is another object than \<open>E\<close>, whose
  components are objects of the store. \<open>E\<close> takes the type and the name of
  \<open>A\<close> and is dirty. Its component array holds exactly the objects the call
  created, one per component of \<open>A\<close> and in the order of \<open>A\<close>: the same types in
  the same order, each object equal to the one it was cloned from. None of the
  components \<open>E\<close> had before is among them. (When the argument is \<open>E\<close> itself,
  the array is emptied before it is read: lemma \<open>copy_This\<close>.)
\<close>

theorem copy_replaces_components:
  assumes "allocated (e_components a) h" and "copy this (Other a) h = (r, this', h')"
  shows "e_type this' = e_type a \<and> e_name this' = e_name a \<and> e_dirty this'
     \<and> e_components this' = [length h ..< length h + length (e_components a)]
     \<and> getComponentList this' h' = getComponentList a h
     \<and> map (\<lambda>c. h' ! c) (e_components this') = map (\<lambda>c. h ! c) (e_components a)
     \<and> (allocated (e_components this) h \<longrightarrow> set (e_components this') \<inter> set (e_components this) = {})
     \<and> e_uuid this' = e_uuid this \<and> e_tasks this' = e_tasks this
     \<and> r = RComponents (e_components this')"
proof -
  let ?n = "length (e_components a)"
  from assms(2) copy_Other_allocated [OF assms(1), of this]
  have this': "this' = this\<lparr>e_type := e_type a, e_name := e_name a,
           e_components := [length h ..< length h + ?n], e_dirty := True\<rparr>"
    and h': "h' = h @ map (\<lambda>r. h ! r) (e_components a)"
    and r: "r = RComponents [length h ..< length h + ?n]"
    by simp_all
  have clones: "map (\<lambda>c. h' ! c) [length h ..< length h + ?n] = map (\<lambda>c. h ! c) (e_components a)"
    by (rule nth_equalityI) (simp_all add: h' nth_append)
  have types: "getComponentList this' h' = getComponentList a h"
  proof -
    have "getComponentList this' h' = map c_type (map (\<lambda>c. h' ! c) [length h ..< length h + ?n])"
      by (simp add: getComponentList_def Component_getType_def this' comp_def)
    also have "\<dots> = map c_type (map (\<lambda>c. h ! c) (e_components a))"
      by (simp only: clones)
    also have "\<dots> = getComponentList a h"
      by (simp add: getComponentList_def Component_getType_def comp_def)
    finally show ?thesis .
  qed
  have fresh: "allocated (e_components this) h \<longrightarrow> set [length h ..< length h + ?n] \<inter> set (e_components this) = {}"
    by (auto simp: allocated_def list_all_iff)
  from clones types fresh show ?thesis
    by (simp add: this' r)
qed

theorem copy_replaces_components_witness:
  "allocated (e_components scenario_assembly) scenario_store
   \<and> copy scenario_target (Other scenario_assembly) scenario_store =
       (RComponents [4, 5],
        scenario_target\<lparr>e_type := PStr ''tank'', e_name := PStr ''Tank'',
                        e_components := [4, 5], e_dirty := True\<rparr>,
        scenario_store @ [scenario_store ! 0, scenario_store ! 1])
   \<and> getComponentList
        (scenario_target\<lparr>e_type := PStr ''tank'', e_name := PStr ''Tank'',
                        e_components := [4, 5], e_dirty := True\<rparr>)
        (scenario_store @ [scenario_store ! 0, scenario_store ! 1]) = [''X'', ''Y'']
   \<and> getComponentList scenario_target scenario_store = [''Y'', ''Z'']
   \<and> allocated (e_components scenario_target) scenario_store
   \<and> set (e_components
        (scenario_target\<lparr>e_type := PStr ''tank'', e_name := PStr ''Tank'',
                        e_components := [4, 5], e_dirty := True\<rparr>))
       \<inter> set (e_components scenario_target) = {}"
proof -
  have source: "getComponentList scenario_assembly scenario_store = [''X'', ''Y'']"
    by (simp add: getComponentList_def Component_getType_def scenario_assembly_def
        scenario_store_def)
  have before: "getComponentList scenario_target scenario_store = [''Y'', ''Z'']"
    by (simp add: getComponentList_def Component_getType_def scenario_target_def
        scenario_store_def)
  have own: "allocated (e_components scenario_target) scenario_store"
    by (simp add: allocated_def scenario_target_def scenario_store_def)
  note copied = copy_replaces_components [OF scenario_allocated scenario_copy]
  from copied
  have "getComponentList
        (scenario_target\<lparr>e_type := PStr ''tank'', e_name := PStr ''Tank'',
                        e_components := [4, 5], e_dirty := True\<rparr>)
        (scenario_store @ [scenario_store ! 0, scenario_store ! 1])
      = getComponentList scenario_assembly scenario_store"
    by blast
  from this source have after: "getComponentList
        (scenario_target\<lparr>e_type := PStr ''tank'', e_name := PStr ''Tank'',
                        e_components := [4, 5], e_dirty := True\<rparr>)
        (scenario_store @ [scenario_store ! 0, scenario_store ! 1]) = [''X'', ''Y'']"
    by (rule trans)
  from copied own
  have dropped: "set (e_components
        (scenario_target\<lparr>e_type := PStr ''tank'', e_name := PStr ''Tank'',
                        e_components := [4, 5], e_dirty := True\<rparr>))
       \<inter> set (e_components scenario_target) = {}"
    by blast
  from scenario_allocated scenario_copy after before own dropped show ?thesis by blast
qed

text \<open>
  C6. Independence of a clone, exercised as \<^verbatim>\<open>E.clone().setComponentData(type, data)\<close>.
  The value that \<^verbatim>\<open>clone()\<close> returns is the component array, for every
  Entity and store, so the call on it raises a TypeError: no Entity is there to
  be mutated. In the scenario the assembly's clone is the array of the two new
  component objects. (Copying into another Entity does keep the two sides apart:
  lemma \<open>copy_independent\<close>.)
\<close>

theorem clone_result_cannot_set_component_data:
  "setComponentData_on (fst (clone this gen h)) type data (snd (clone this gen h))
     = Inl TypeError
   \<and> clone scenario_assembly ''g'' scenario_store
     = (RComponents [4, 5], scenario_store @ [scenario_store ! 0, scenario_store ! 1])
   \<and> setComponentData_on (RComponents [4, 5]) ''X'' [''v'' \<mapsto> 9]
        (scenario_store @ [scenario_store ! 0, scenario_store ! 1])
     = (Inl TypeError :: error + ((int, nat) ret \<times> nat entity \<times> int store))"
proof (intro conjI)
  have "fst (clone this gen h) = RComponents (fst (cloneEach (e_components this) [] h))"
    by (simp add: clone_def copy_Other)
  then show "setComponentData_on (fst (clone this gen h)) type data (snd (clone this gen h))
               = Inl TypeError"
    by (simp add: setComponentData_on_def)
  show "clone scenario_assembly ''g'' scenario_store
          = (RComponents [4, 5], scenario_store @ [scenario_store ! 0, scenario_store ! 1])"
    by (rule scenario_clone)
  show "setComponentData_on (RComponents [4, 5]) ''X'' [''v'' \<mapsto> 9]
          (scenario_store @ [scenario_store ! 0, scenario_store ! 1])
        = (Inl TypeError :: error + ((int, nat) ret \<times> nat entity \<times> int store))"
    by (simp add: setComponentData_on_def)
qed

text \<open>
  C7. The dirty flag. Both constructor branches end with a clean Entity. Each of
  the eight mutations leaves the flag set: \<^verbatim>\<open>copy\<close>, \<^verbatim>\<open>setTasks\<close>,
  \<^verbatim>\<open>appendTasks\<close>, \<^verbatim>\<open>insertTasks\<close> and \<^verbatim>\<open>advanceTasks\<close> always;
  \<^verbatim>\<open>_addComponent\<close> whenever the type is not yet present, and
  \<^verbatim>\<open>_removeComponent\<close> and \<^verbatim>\<open>setComponentData\<close> whenever it is, which are the
  cases in which they do not return null. No call of any method other than
  \<^verbatim>\<open>setDirty(false)\<close> takes a set flag away, and \<^verbatim>\<open>setDirty(false)\<close> does.
\<close>

theorem dirty_until_cleared:
  "(Entity_new mk gen config h0 = Inr (built, h1) \<longrightarrow> \<not> e_dirty built)
   \<and> (\<not> hasComponent this h (Component_getType (h ! component)) \<longrightarrow>
        fst (invoke (AddComponent component) this h) \<noteq> RNull
        \<and> e_dirty (fst (snd (invoke (AddComponent component) this h))))
   \<and> (hasComponent this h type \<longrightarrow>
        fst (invoke (RemoveComponent type) this h) \<noteq> RNull
        \<and> e_dirty (fst (snd (invoke (RemoveComponent type) this h)))
        \<and> fst (invoke (SetComponentData type data) this h) \<noteq> RNull
        \<and> e_dirty (fst (snd (invoke (SetComponentData type data) this h))))
   \<and> e_dirty (fst (snd (invoke (Copy source) this h)))
   \<and> e_dirty (fst (snd (invoke (SetTasks tasks) this h)))
   \<and> e_dirty (fst (snd (invoke (AppendTasks tasks) this h)))
   \<and> e_dirty (fst (snd (invoke (InsertTasks tasks) this h)))
   \<and> e_dirty (fst (snd (invoke AdvanceTasks this h)))
   \<and> (c' \<noteq> SetDirty (Some False) \<and> e_dirty this' \<longrightarrow> e_dirty (fst (snd (invoke c' this' h'))))
   \<and> \<not> e_dirty (fst (snd (invoke (SetDirty (Some False)) this' h')))"
proof (intro conjI impI)
  assume "Entity_new mk gen config h0 = Inr (built, h1)"
  then show "\<not> e_dirty built" by (rule Entity_new_clean)
next
  assume absent: "\<not> hasComponent this h (Component_getType (h ! component))"
  show "fst (invoke (AddComponent component) this h) \<noteq> RNull"
    by (simp add: addComponent_succeeds [OF absent])
  show "e_dirty (fst (snd (invoke (AddComponent component) this h)))"
    by (simp add: addComponent_succeeds [OF absent])
next
  assume present: "hasComponent this h type"
  from removeComponent_succeeds [OF present]
  show "fst (invoke (RemoveComponent type) this h) \<noteq> RNull"
    by (cases "removeComponent this type h") simp
  from removeComponent_succeeds [OF present]
  show "e_dirty (fst (snd (invoke (RemoveComponent type) this h)))"
    by (cases "removeComponent this type h") simp
  from setComponentData_succeeds [OF present]
  show "fst (invoke (SetComponentData type data) this h) \<noteq> RNull" by simp
  from setComponentData_succeeds [OF present]
  show "e_dirty (fst (snd (invoke (SetComponentData type data) this h)))" by simp
next
  show "e_dirty (fst (snd (invoke (Copy source) this h)))"
    by (simp add: copy_dirty)
  show "e_dirty (fst (snd (invoke (SetTasks tasks) this h)))"
    by (simp add: setTasks_def setDirty_def)
  show "e_dirty (fst (snd (invoke (AppendTasks tasks) this h)))"
    by (simp add: appendTasks_def setDirty_def)
  show "e_dirty (fst (snd (invoke (InsertTasks tasks) this h)))"
    by (simp add: insertTasks_def setDirty_def)
  show "e_dirty (fst (snd (invoke AdvanceTasks this h)))"
    by (simp add: advanceTasks_def setDirty_def)
  show "\<not> e_dirty (fst (snd (invoke (SetDirty (Some False)) this' h')))"
    by (simp add: setDirty_def)
next
  assume "c' \<noteq> SetDirty (Some False) \<and> e_dirty this'"
  then show "e_dirty (fst (snd (invoke c' this' h')))"
    by (simp add: dirty_kept)
qed

theorem dirty_until_cleared_witness:
  "Entity_new (\<lambda>c. c) ''g'' (Some scenario_config) []
     = Inr (\<lparr>e_uuid = PStr ''g'', e_type = PStr ''tank'', e_name = PStr ''No Name'',
             e_components = [0, 2], e_tasks = [], tasksDirty = Some False, e_dirty = False\<rparr>,
            [\<lparr>c_type = ''X'', c_data = [''v'' \<mapsto> 1]\<rparr>, \<lparr>c_type = ''X'', c_data = [''v'' \<mapsto> 5]\<rparr>,
             \<lparr>c_type = ''Y'', c_data = [''v'' \<mapsto> 2]\<rparr>])
   \<and> \<not> hasComponent scenario_assembly scenario_store (Component_getType (scenario_store ! 3))
   \<and> e_dirty (fst (snd (invoke (AddComponent 3) scenario_assembly scenario_store)))
   \<and> hasComponent scenario_assembly scenario_store ''X''
   \<and> e_dirty (fst (snd (invoke (RemoveComponent ''X'') scenario_assembly scenario_store)))
   \<and> e_dirty (fst (snd (invoke (SetComponentData ''X'' [''v'' \<mapsto> 9])
                            scenario_assembly scenario_store)))
   \<and> e_dirty (fst (snd (invoke (SetTasks [4]) scenario_assembly scenario_store)))
   \<and> e_dirty (fst (snd (invoke (InsertTasks [4]) scenario_assembly scenario_store)))
   \<and> (AppendTasks [4] :: (int, nat) call) \<noteq> SetDirty (Some False)
   \<and> e_dirty (scenario_assembly\<lparr>e_dirty := True\<rparr>)
   \<and> e_dirty (fst (snd (invoke (AppendTasks [4]) (scenario_assembly\<lparr>e_dirty := True\<rparr>)
                            scenario_store)))"
  (is "?new \<and> ?absent \<and> ?added \<and> ?present \<and> ?removed \<and> ?set \<and> ?setTasks \<and> ?inserted
       \<and> ?other \<and> ?dirty \<and> ?kept")
proof -
  have new: ?new
    by (simp add: Entity_new_def scenario_config_def js_or_def addComponent_def
        hasComponent_def hasItem_def Component_getType_def)
  have absent: ?absent
    by (simp add: hasComponent_def hasItem_def Component_getType_def scenario_assembly_def
        scenario_store_def)
  have present: ?present
    by (simp add: hasComponent_def hasItem_def scenario_assembly_def scenario_store_def)
  have other: ?other by simp
  have dirty: ?dirty by simp
  note flag = dirty_until_cleared
      [of "\<lambda>c. c" "''g''" "Some scenario_config" "[]"
          "\<lparr>e_uuid = PStr ''g'', e_type = PStr ''tank'', e_name = PStr ''No Name'',
             e_components = [0, 2], e_tasks = [], tasksDirty = Some False, e_dirty = False\<rparr>"
          "[\<lparr>c_type = ''X'', c_data = [''v'' \<mapsto> 1]\<rparr>, \<lparr>c_type = ''X'', c_data = [''v'' \<mapsto> 5]\<rparr>,
             \<lparr>c_type = ''Y'', c_data = [''v'' \<mapsto> 2]\<rparr>]"
          scenario_assembly scenario_store 3 "''X''" "[''v'' \<mapsto> 9]"
          "Other scenario_target" "[4]" "AppendTasks [4] :: (int, nat) call"
          "scenario_assembly\<lparr>e_dirty := True\<rparr>" scenario_store]
  from flag absent have added: ?added by blast
  from flag present have removed: ?removed by blast
  from flag present have set: ?set by blast
  from flag have setTasks: ?setTasks by blast
  from flag have inserted: ?inserted by blast
  from flag other dirty have kept: ?kept by blast
  from new absent added present removed set setTasks inserted other dirty kept
  show ?thesis by (intro conjI)
qed

text \<open>
  C8. The task sequence is consumed from the front: on \<open>[t1, t2, t3]\<close>,
  \<^verbatim>\<open>advanceTasks()\<close> leaves \<open>[t2, t3]\<close> and \<^verbatim>\<open>getCurrentTask()\<close> then gives
  \<open>t2\<close>; in general the first task goes and the rest stays. On the empty sequence
  the call returns normally and the sequence is still empty.
\<close>

theorem advanceTasks_fifo:
  "e_tasks (snd (advanceTasks (this\<lparr>e_tasks := [t1, t2, t3]\<rparr>))) = [t2, t3]
   \<and> getCurrentTask (snd (advanceTasks (this\<lparr>e_tasks := [t1, t2, t3]\<rparr>))) = RTask t2
   \<and> e_tasks (snd (advanceTasks (this\<lparr>e_tasks := t # rest\<rparr>))) = rest
   \<and> advanceTasks (this\<lparr>e_tasks := []\<rparr>)
       = (RUndefined, this\<lparr>e_tasks := [], tasksDirty := Some True, e_dirty := True\<rparr>)"
  by (simp add: advanceTasks_def shift_def setDirty_def getCurrentTask_def)

text \<open>
  C9. The four failing operations: adding a Component whose type the Entity
  already has, and removing, reading the data of, or setting the data of a type
  the Entity does not have. Each returns null, and the Entity and the store are
  exactly as before.
\<close>

theorem failing_operations_return_null:
  "(hasComponent this h (Component_getType (h ! component))
      \<longrightarrow> invoke (AddComponent component) this h = (RNull, this, h))
   \<and> (\<not> hasComponent this h type
      \<longrightarrow> invoke (RemoveComponent type) this h = (RNull, this, h)
        \<and> invoke (GetData type) this h = (RNull, this, h)
        \<and> invoke (SetComponentData type data) this h = (RNull, this, h))"
  by (simp add: addComponent_def removeComponent_def getData_def setComponentData_eq
      getComponent_None_iff [symmetric])

theorem failing_operations_return_null_witness:
  "hasComponent
     \<lparr>e_uuid = PStr ''u'', e_type = PStr ''unit'', e_name = PStr ''Tank'',
      e_components = [0], e_tasks = [5::nat], tasksDirty = None, e_dirty = False\<rparr>
     [\<lparr>c_type = ''position'', c_data = [''x'' \<mapsto> (1::int)]\<rparr>,
      \<lparr>c_type = ''position'', c_data = [''x'' \<mapsto> 2]\<rparr>]
     (Component_getType
        ([\<lparr>c_type = ''position'', c_data = [''x'' \<mapsto> (1::int)]\<rparr>,
          \<lparr>c_type = ''position'', c_data = [''x'' \<mapsto> 2]\<rparr>] ! 1))
   \<and> invoke (AddComponent 1)
       \<lparr>e_uuid = PStr ''u'', e_type = PStr ''unit'', e_name = PStr ''Tank'',
        e_components = [0], e_tasks = [5::nat], tasksDirty = None, e_dirty = False\<rparr>
       [\<lparr>c_type = ''position'', c_data = [''x'' \<mapsto> (1::int)]\<rparr>,
        \<lparr>c_type = ''position'', c_data = [''x'' \<mapsto> 2]\<rparr>]
     = (RNull,
        \<lparr>e_uuid = PStr ''u'', e_type = PStr ''unit'', e_name = PStr ''Tank'',
         e_components = [0], e_tasks = [5::nat], tasksDirty = None, e_dirty = False\<rparr>,
        [\<lparr>c_type = ''position'', c_data = [''x'' \<mapsto> (1::int)]\<rparr>,
         \<lparr>c_type = ''position'', c_data = [''x'' \<mapsto> 2]\<rparr>])
   \<and> \<not> hasComponent
       \<lparr>e_uuid = PStr ''u'', e_type = PStr ''unit'', e_name = PStr ''Tank'',
        e_components = [0], e_tasks = [5::nat], tasksDirty = None, e_dirty = False\<rparr>
       [\<lparr>c_type = ''position'', c_data = [''x'' \<mapsto> (1::int)]\<rparr>,
        \<lparr>c_type = ''position'', c_data = [''x'' \<mapsto> 2]\<rparr>]
       ''health''
   \<and> invoke (SetComponentData ''health'' [''hp'' \<mapsto> 3])
       \<lparr>e_uuid = PStr ''u'', e_type = PStr ''unit'', e_name = PStr ''Tank'',
        e_components = [0], e_tasks = [5::nat], tasksDirty = None, e_dirty = False\<rparr>
       [\<lparr>c_type = ''position'', c_data = [''x'' \<mapsto> (1::int)]\<rparr>,
        \<lparr>c_type = ''position'', c_data = [''x'' \<mapsto> 2]\<rparr>]
     = (RNull,
        \<lparr>e_uuid = PStr ''u'', e_type = PStr ''unit'', e_name = PStr ''Tank'',
         e_components = [0], e_tasks = [5::nat], tasksDirty = None, e_dirty = False\<rparr>,
        [\<lparr>c_type = ''position'', c_data = [''x'' \<mapsto> (1::int)]\<rparr>,
         \<lparr>c_type = ''position'', c_data = [''x'' \<mapsto> 2]\<rparr>])"
  (is "?dup \<and> ?add \<and> ?missing \<and> ?set")
proof -
  have dup: ?dup
    by (simp add: hasComponent_def hasItem_def Component_getType_def)
  have missing: ?missing
    by (simp add: hasComponent_def hasItem_def)
  from dup missing
    failing_operations_return_null
      [of "\<lparr>e_uuid = PStr ''u'', e_type = PStr ''unit'', e_name = PStr ''Tank'',
            e_components = [0], e_tasks = [5::nat], tasksDirty = None, e_dirty = False\<rparr>"
          "[\<lparr>c_type = ''position'', c_data = [''x'' \<mapsto> (1::int)]\<rparr>,
            \<lparr>c_type = ''position'', c_data = [''x'' \<mapsto> 2]\<rparr>]"
          1 "''health''" "[''hp'' \<mapsto> 3]"]
  show ?thesis by blast
qed

text \<open>
  C10. A configuration record that has its \<^verbatim>\<open>components\<close> array always yields an
  Entity. Where the supplied \<^verbatim>\<open>uuid\<close>, \<^verbatim>\<open>type\<close> or \<^verbatim>\<open>name\<close> is falsy (the
  empty string, 0, NaN, false, null), the Entity carries the generated identifier,
  \<^verbatim>\<open>"no-type"\<close> or \<^verbatim>\<open>"No Name"\<close>, and it is the very Entity, in the very store,
  that the record without that field yields.
\<close>

theorem falsy_fields_take_defaults:
  assumes "cfg_components cfg = Some datas"
  shows "\<exists>this h'. Entity_new mk gen (Some cfg) h = Inr (this, h')
     \<and> (\<not> truthy (cfg_uuid cfg) \<longrightarrow> e_uuid this = PStr gen
          \<and> Entity_new mk gen (Some (cfg\<lparr>cfg_uuid := PUndefined\<rparr>)) h = Inr (this, h'))
     \<and> (\<not> truthy (cfg_type cfg) \<longrightarrow> e_type this = PStr ''no-type''
          \<and> Entity_new mk gen (Some (cfg\<lparr>cfg_type := PUndefined\<rparr>)) h = Inr (this, h'))
     \<and> (\<not> truthy (cfg_name cfg) \<longrightarrow> e_name this = PStr ''No Name''
          \<and> Entity_new mk gen (Some (cfg\<lparr>cfg_name := PUndefined\<rparr>)) h = Inr (this, h'))"
proof -
  from Entity_new_returns [OF assms] obtain this h'
    where new: "Entity_new mk gen (Some cfg) h = Inr (this, h')" by blast
  from Entity_new_config [OF assms new]
  have fields: "e_uuid this = js_or (cfg_uuid cfg) (PStr gen)"
    "e_type this = js_or (cfg_type cfg) (PStr ''no-type'')"
    "e_name this = js_or (cfg_name cfg) (PStr ''No Name'')" by simp_all
  show ?thesis
    using new fields by (auto simp: js_or_def Entity_new_falsy)
qed

theorem falsy_fields_take_defaults_witness:
  "\<exists>this h'.
     Entity_new (\<lambda>c. c) ''generated''
       (Some \<lparr>cfg_uuid = PStr '''', cfg_type = PStr '''', cfg_name = PNum 0,
              cfg_components = Some [\<lparr>c_type = ''position'', c_data = [''x'' \<mapsto> (1::int)]\<rparr>],
              cfg_tasks = Some [7::nat]\<rparr>) []
       = Inr (this, h')
     \<and> e_uuid this = PStr ''generated'' \<and> e_type this = PStr ''no-type''
     \<and> e_name this = PStr ''No Name''"
  using falsy_fields_take_defaults
    [of "\<lparr>cfg_uuid = PStr '''', cfg_type = PStr '''', cfg_name = PNum 0,
              cfg_components = Some [\<lparr>c_type = ''position'', c_data = [''x'' \<mapsto> (1::int)]\<rparr>],
              cfg_tasks = Some [7::nat]\<rparr>"
        "[\<lparr>c_type = ''position'', c_data = [''x'' \<mapsto> (1::int)]\<rparr>]"
        "\<lambda>c. c" "''generated''" "[]"]
  by simp blast

end
